theory Spec2Isabelle
  imports Main "HOL-Library.Sublist"
begin

section \<open>JavaScript strings\<close>

text \<open>
  A JavaScript string is modelled as a \<^typ>\<open>string\<close>: the bytes of its UTF-8 encoding.
  Positions then count bytes; the code uses a position only to cut a string where a search
  string was found, so the pieces are the same. Strings with unpaired surrogates have no
  such encoding and are left out. The operations below are the ones the file-serving code
  calls: \<^verbatim>\<open>startsWith\<close>, \<^verbatim>\<open>indexOf\<close>, \<^verbatim>\<open>includes\<close> (here \<open>includes_str\<close>),
  \<^verbatim>\<open>substring\<close> and \<^verbatim>\<open>slice\<close>.
\<close>

definition startsWith :: "string \<Rightarrow> string \<Rightarrow> bool" where
  "startsWith s p = prefix p s"

text \<open>
  \<^verbatim>\<open>s.indexOf(d)\<close>: the smallest position at which \<open>d\<close> occurs in \<open>s\<close>; \<open>None\<close> stands for
  the result \<^verbatim>\<open>-1\<close>. The empty search string occurs at position 0.
\<close>

fun indexOf :: "string \<Rightarrow> string \<Rightarrow> nat option" where
  "indexOf [] d = (if d = [] then Some 0 else None)"
| "indexOf (c # cs) d =
     (if prefix d (c # cs) then Some 0 else map_option Suc (indexOf cs d))"

definition includes_str :: "string \<Rightarrow> string \<Rightarrow> bool" where
  "includes_str s d = (indexOf s d \<noteq> None)"

definition substring :: "string \<Rightarrow> nat \<Rightarrow> nat \<Rightarrow> string" where
  "substring s i j = take (j - i) (drop i s)"

definition substringFrom :: "string \<Rightarrow> nat \<Rightarrow> string" where
  "substringFrom s i = drop i s"

text \<open>\<^verbatim>\<open>s.slice(n)\<close> for a position \<open>n\<close> inside the string.\<close>

definition sliceFrom :: "string \<Rightarrow> nat \<Rightarrow> string" where
  "sliceFrom s n = drop n s"

text \<open>
  An integer inside a template literal. JavaScript prints an integer of magnitude below
  \<^verbatim>\<open>1e21\<close> by its decimal digits, with a minus sign when it is negative; from there on it
  uses the exponent form, which these functions do not produce. They are used on the
  constant \<^verbatim>\<open>maxAttempts\<close> and on port numbers, and every statement about a port carries
  the bound. Numbers that are not integers are not modelled.
\<close>

definition digitChar :: "nat \<Rightarrow> char" where
  "digitChar n = ''0123456789'' ! n"

function numberToString :: "nat \<Rightarrow> string" where
  "numberToString n =
     (if n < 10 then [digitChar n] else numberToString (n div 10) @ [digitChar (n mod 10)])"
  by pat_completeness auto
termination
  by (relation "measure (\<lambda>n. n)") auto

declare numberToString.simps [simp del]


section \<open>Errors\<close>

text \<open>
  Every failure of the file-serving utilities is a plain \<^verbatim>\<open>throw new Error(message)\<close>;
  the model keeps the message. Failures of the file system calls carry the Node error code.
\<close>

datatype error = Error string | FsError string

section \<open>Name codec\<close>

text \<open>\<^verbatim>\<open>formatStoredName\<close>: the template \<^verbatim>\<open>`${id}${delimiter}${originalFilename}`\<close>.\<close>

definition formatStoredName :: "string \<Rightarrow> string \<Rightarrow> string \<Rightarrow> string" where
  "formatStoredName ident originalFilename delimiter = ident @ delimiter @ originalFilename"

record parsedName =
  id' :: string
  filename :: string

text \<open>\<^verbatim>\<open>parseStoredName\<close>: split at the first occurrence of the delimiter, with the
  fallback of the source when \<^verbatim>\<open>indexOf\<close> returns \<^verbatim>\<open>-1\<close>.\<close>

definition parseStoredName :: "string \<Rightarrow> string \<Rightarrow> parsedName" where
  "parseStoredName storedName delimiter =
     (case indexOf storedName delimiter of
        None \<Rightarrow> \<lparr>id' = storedName, filename = storedName\<rparr>
      | Some index \<Rightarrow>
          \<lparr>id' = substring storedName 0 index,
           filename = substringFrom storedName (index + length delimiter)\<rparr>)"

section \<open>Identifier generation\<close>

text \<open>
  The generator \<^verbatim>\<open>generateIdFn: () => string\<close> is a function with hidden state (a random
  source, a counter). It is modelled as a function from that state to the identifier and
  the next state; the state type is left open. A generator is taken to return a string, as
  its type says, and not to touch the file system.
\<close>

type_synonym 's generator = "'s \<Rightarrow> string \<times> 's"

definition maxAttempts :: nat where
  "maxAttempts = 100"

definition generationErrorMessage :: "string \<Rightarrow> string" where
  "generationErrorMessage delimiter =
     ''Failed to generate ID without delimiter '' @ [CHR 0x27] @ delimiter @ [CHR 0x27]
       @ '' after '' @ numberToString maxAttempts
       @ '' attempts. Consider using a different delimiter or custom ID generator.''"

text \<open>The \<^verbatim>\<open>while (attempts < maxAttempts)\<close> loop of \<^verbatim>\<open>generateValidatedId\<close>, started at
  any value of the counter.\<close>

function generateValidatedId_loop ::
  "string \<Rightarrow> 's generator \<Rightarrow> nat \<Rightarrow> 's \<Rightarrow> (error + string) \<times> 's" where
  "generateValidatedId_loop delimiter generateIdFn attempts s =
     (if attempts < maxAttempts then
        (case generateIdFn s of
           (ident, s') \<Rightarrow>
             if \<not> includes_str ident delimiter then (Inr ident, s')
             else generateValidatedId_loop delimiter generateIdFn (attempts + 1) s')
      else (Inl (Error (generationErrorMessage delimiter)), s))"
  by pat_completeness auto
termination
  by (relation "measure (\<lambda>(d, g, attempts, s). maxAttempts - attempts)") auto

declare generateValidatedId_loop.simps [simp del]

definition generateValidatedId ::
  "string \<Rightarrow> 's generator \<Rightarrow> 's \<Rightarrow> (error + string) \<times> 's" where
  "generateValidatedId delimiter generateIdFn s =
     generateValidatedId_loop delimiter generateIdFn 0 s"

text \<open>A generator wrapped so that its state also counts how often it has been invoked.\<close>

definition counting :: "'s generator \<Rightarrow> (nat \<times> 's) generator" where
  "counting g = (\<lambda>(n, s). case g s of (x, s') \<Rightarrow> (x, (Suc n, s')))"

section \<open>The path module (POSIX)\<close>

text \<open>
  \<^verbatim>\<open>path.join\<close>, \<^verbatim>\<open>path.resolve\<close> and \<^verbatim>\<open>path.normalize\<close> belong to the Node runtime, not to
  this repository. They are written out here as Node's POSIX implementation computes them,
  segment by segment: empty segments and \<^verbatim>\<open>.\<close> vanish, \<^verbatim>\<open>..\<close> removes the segment before
  it, and above the root it is dropped (absolute paths) or kept (relative paths).
  The working directory \<^verbatim>\<open>process.cwd()\<close> is a parameter.
\<close>

fun splitOn :: "char \<Rightarrow> string \<Rightarrow> string list" where
  "splitOn sep [] = [[]]"
| "splitOn sep (c # cs) =
     (if c = sep then [] # splitOn sep cs
      else (case splitOn sep cs of [] \<Rightarrow> [[c]] | w # ws \<Rightarrow> (c # w) # ws))"

fun joinSegs :: "string list \<Rightarrow> string" where
  "joinSegs [] = []"
| "joinSegs [s] = s"
| "joinSegs (s # t # ts) = s @ ''/'' @ joinSegs (t # ts)"

text \<open>The stack holds the segments kept so far, the last one first.\<close>

fun normSegs :: "bool \<Rightarrow> string list \<Rightarrow> string list \<Rightarrow> string list" where
  "normSegs allowAboveRoot stack [] = rev stack"
| "normSegs allowAboveRoot stack (seg # segs) =
     (if seg = [] \<or> seg = ''.'' then normSegs allowAboveRoot stack segs
      else if seg = ''..'' then
        (case stack of
           [] \<Rightarrow> normSegs allowAboveRoot (if allowAboveRoot then [''..''] else []) segs
         | t # ts \<Rightarrow>
             if t = ''..'' then
               normSegs allowAboveRoot (if allowAboveRoot then ''..'' # stack else stack) segs
             else normSegs allowAboveRoot ts segs)
      else normSegs allowAboveRoot (seg # stack) segs)"

definition normalizeString :: "string \<Rightarrow> bool \<Rightarrow> string" where
  "normalizeString path allowAboveRoot =
     joinSegs (normSegs allowAboveRoot [] (splitOn CHR ''/'' path))"

definition isAbsolutePath :: "string \<Rightarrow> bool" where
  "isAbsolutePath path = (case path of [] \<Rightarrow> False | c # _ \<Rightarrow> c = CHR ''/'')"

definition hasTrailingSeparator :: "string \<Rightarrow> bool" where
  "hasTrailingSeparator path = (case rev path of [] \<Rightarrow> False | c # _ \<Rightarrow> c = CHR ''/'')"

definition path_normalize :: "string \<Rightarrow> string" where
  "path_normalize path =
     (if path = [] then ''.''
      else
        (let isAbsolute = isAbsolutePath path;
             trailingSeparator = hasTrailingSeparator path;
             p = normalizeString path (\<not> isAbsolute)
         in if p = [] then (if isAbsolute then ''/'' else if trailingSeparator then ''./'' else ''.'')
            else (if isAbsolute then ''/'' else []) @ p @ (if trailingSeparator then ''/'' else [])))"

text \<open>\<^verbatim>\<open>path.join(a, b)\<close>: the non-empty arguments, joined by a slash and normalised.\<close>

definition path_join :: "string \<Rightarrow> string \<Rightarrow> string" where
  "path_join a b =
     (if a = [] \<and> b = [] then ''.''
      else if a = [] then path_normalize b
      else if b = [] then path_normalize a
      else path_normalize (a @ ''/'' @ b))"

text \<open>\<^verbatim>\<open>path.resolve(p)\<close> with one argument: the argument, then the working directory
  unless the argument is absolute already.\<close>

definition path_resolve :: "string \<Rightarrow> string \<Rightarrow> string" where
  "path_resolve cwd p =
     (let fromArg = (if p = [] then [] else p @ ''/'');
          resolvedPath =
            (if isAbsolutePath p \<or> cwd = [] then fromArg else cwd @ ''/'' @ fromArg);
          resolvedAbsolute =
            (if isAbsolutePath p \<or> cwd = [] then isAbsolutePath p else isAbsolutePath cwd);
          normalized = normalizeString resolvedPath (\<not> resolvedAbsolute)
      in if resolvedAbsolute then ''/'' @ normalized
         else if normalized \<noteq> [] then normalized else ''.'')"

text \<open>A path lies within a directory when it is the directory or continues it after a
  separator. This is the notion of the specification, used to state containment.\<close>

definition withinDirectory :: "string \<Rightarrow> string \<Rightarrow> bool" where
  "withinDirectory dir p =
     (p = dir \<or> prefix (if dir = ''/'' then dir else dir @ ''/'') p)"

section \<open>The file system\<close>

text \<open>
  The file system is a map from normalised absolute paths, written without a slash at the
  end, to what lies there: a regular file with its bytes, or a directory. The root is a
  directory and has no entry. Links and permissions are not modelled.
\<close>

datatype node = File string | Directory

type_synonym filesystem = "string \<Rightarrow> node option"

definition stripTrailingSeparators :: "string \<Rightarrow> string" where
  "stripTrailingSeparators p = rev (dropWhile (\<lambda>c. c = CHR ''/'') (rev p))"

text \<open>
  What a path names. A path that ends in a slash names the directory at the path without
  the slash, and nothing when a regular file or nothing is there; a path of slashes only
  is the root.
\<close>

definition lookupPath :: "filesystem \<Rightarrow> string \<Rightarrow> node option" where
  "lookupPath fs p =
     (case fs p of
        Some n \<Rightarrow> Some n
      | None \<Rightarrow>
          if hasTrailingSeparator p then
            (if stripTrailingSeparators p = [] then Some Directory
             else (case fs (stripTrailingSeparators p) of
                     Some Directory \<Rightarrow> Some Directory
                   | _ \<Rightarrow> None))
          else None)"

definition existsSync :: "filesystem \<Rightarrow> string \<Rightarrow> bool" where
  "existsSync fs p = (lookupPath fs p \<noteq> None)"

definition readFileSync :: "filesystem \<Rightarrow> string \<Rightarrow> error + string" where
  "readFileSync fs p =
     (case lookupPath fs p of
        None \<Rightarrow>
          Inl (FsError
                (case fs (stripTrailingSeparators p) of
                   Some (File _) \<Rightarrow> ''ENOTDIR''
                 | _ \<Rightarrow> ''ENOENT''))
      | Some Directory \<Rightarrow> Inl (FsError ''EISDIR'')
      | Some (File bytes) \<Rightarrow> Inr bytes)"

definition pathSegments :: "string \<Rightarrow> string list" where
  "pathSegments p = filter (\<lambda>s. s \<noteq> []) (splitOn CHR ''/'' p)"

text \<open>The directories \<^verbatim>\<open>mkdir\<close> has to find or make for an absolute path, outermost first.\<close>

definition ancestors :: "string \<Rightarrow> string list" where
  "ancestors p =
     map (\<lambda>k. ''/'' @ joinSegs (take k (pathSegments p))) [1 ..< Suc (length (pathSegments p))]"

text \<open>\<^verbatim>\<open>mkdir(p, { recursive: true })\<close>: every missing directory on the way is created, an
  existing directory is left alone, and a regular file in the way is an error. The file
  system is returned as far as it got.\<close>

fun mkdirAll :: "filesystem \<Rightarrow> string list \<Rightarrow> error option \<times> filesystem" where
  "mkdirAll fs [] = (None, fs)"
| "mkdirAll fs (p # ps) =
     (case fs p of
        Some (File _) \<Rightarrow> (Some (FsError (if ps = [] then ''EEXIST'' else ''ENOTDIR'')), fs)
      | _ \<Rightarrow> mkdirAll (fs(p \<mapsto> Directory)) ps)"

definition mkdir_recursive :: "filesystem \<Rightarrow> string \<Rightarrow> error option \<times> filesystem" where
  "mkdir_recursive fs p = mkdirAll fs (ancestors p)"

definition path_dirname :: "string \<Rightarrow> string" where
  "path_dirname p = ''/'' @ joinSegs (butlast (pathSegments p))"

text \<open>The directories on the way to a path, outermost first: the first that is a regular
  file or is missing decides the error.\<close>

fun checkDirectories :: "filesystem \<Rightarrow> string list \<Rightarrow> error option" where
  "checkDirectories fs [] = None"
| "checkDirectories fs (d # ds) =
     (case fs d of
        None \<Rightarrow> Some (FsError ''ENOENT'')
      | Some (File _) \<Rightarrow> Some (FsError ''ENOTDIR'')
      | Some Directory \<Rightarrow> checkDirectories fs ds)"

text \<open>\<^verbatim>\<open>fs.writeFile(p, buffer)\<close>: creates or replaces the regular file at \<open>p\<close>. Every
  directory on the way to \<open>p\<close> has to exist, and \<open>p\<close> must not name a directory, by a
  slash at its end or by what is there.\<close>

definition fsWriteFile :: "filesystem \<Rightarrow> string \<Rightarrow> string \<Rightarrow> error + filesystem" where
  "fsWriteFile fs p buffer =
     (case checkDirectories fs (ancestors (path_dirname p)) of
        Some e \<Rightarrow> Inl e
      | None \<Rightarrow>
          if hasTrailingSeparator p then Inl (FsError ''EISDIR'')
          else (case fs p of
                  Some Directory \<Rightarrow> Inl (FsError ''EISDIR'')
                | _ \<Rightarrow> Inr (fs(p \<mapsto> File buffer))))"

section \<open>Store path resolution\<close>

definition DEFAULT_DELIMITER :: string where
  "DEFAULT_DELIMITER = ''~''"

definition FILE_URI_PREFIX :: string where
  "FILE_URI_PREFIX = ''file://''"

definition resolveResourceStorePath :: "string \<Rightarrow> string \<Rightarrow> error + string" where
  "resolveResourceStorePath cwd resourceStoreUri =
     (if resourceStoreUri = [] then Inl (Error ''File serving requires a resourceStoreUri.'')
      else if startsWith resourceStoreUri FILE_URI_PREFIX then
        Inr (path_resolve cwd (sliceFrom resourceStoreUri (length FILE_URI_PREFIX)))
      else if includes_str resourceStoreUri ''://'' then
        Inl (Error (''Unsupported resourceStoreUri scheme: '' @ resourceStoreUri
                      @ ''. Only file:// URIs are supported.''))
      else Inr (path_resolve cwd resourceStoreUri))"

section \<open>Reservation and buffered write\<close>

record 's FileServingConfig =
  resourceStoreUri :: string
  delimiter :: "string option"
  generateId :: "'s generator option"

record FileReservation =
  reservationId :: string
  storedName :: string
  fullPath :: string

text \<open>
  \<^verbatim>\<open>reserveFile\<close> acts on the file system and on the state of the generator; both are
  passed in and returned. \<open>randomUUID\<close> is the default generator of the runtime.
  The steps follow the source: the store path is resolved, the directory is made, the
  identifier is generated, and a failure of any step ends the call with what was done
  before it.
\<close>

definition reserveFile ::
  "string \<Rightarrow> 's generator \<Rightarrow> string \<Rightarrow> 's FileServingConfig \<Rightarrow> filesystem \<times> 's
     \<Rightarrow> (error + FileReservation) \<times> filesystem \<times> 's" where
  "reserveFile cwd randomUUID originalFilename config = (\<lambda>(fs, s).
     let delim = (case delimiter config of None \<Rightarrow> DEFAULT_DELIMITER | Some d \<Rightarrow> d);
         generateIdFn = (case generateId config of None \<Rightarrow> randomUUID | Some g \<Rightarrow> g)
     in case resolveResourceStorePath cwd (resourceStoreUri config) of
          Inl e \<Rightarrow> (Inl e, fs, s)
        | Inr outputDir \<Rightarrow>
            (case mkdir_recursive fs outputDir of
               (Some e, fs') \<Rightarrow> (Inl e, fs', s)
             | (None, fs') \<Rightarrow>
                 (case generateValidatedId delim generateIdFn s of
                    (Inl e, s') \<Rightarrow> (Inl e, fs', s')
                  | (Inr ident, s') \<Rightarrow>
                      (let stored = formatStoredName ident originalFilename delim;
                           full = path_join outputDir stored
                       in (Inr \<lparr>reservationId = ident, storedName = stored, fullPath = full\<rparr>,
                           fs', s')))))"

definition writeFile ::
  "string \<Rightarrow> 's generator \<Rightarrow> string \<Rightarrow> string \<Rightarrow> 's FileServingConfig \<Rightarrow> filesystem \<times> 's
     \<Rightarrow> (error + FileReservation) \<times> filesystem \<times> 's" where
  "writeFile cwd randomUUID buffer originalFilename config = (\<lambda>(fs, s).
     case reserveFile cwd randomUUID originalFilename config (fs, s) of
       (Inl e, fs', s') \<Rightarrow> (Inl e, fs', s')
     | (Inr reservation, fs', s') \<Rightarrow>
         (case fsWriteFile fs' (fullPath reservation) buffer of
            Inl e \<Rightarrow> (Inl e, fs', s')
          | Inr fs'' \<Rightarrow> (Inr reservation, fs'', s')))"

section \<open>File URIs\<close>








section \<open>The retrieval endpoint\<close>

text \<open>\<^verbatim>\<open>encodeURIComponent\<close> on the bytes of a string: letters, digits and
  \<^verbatim>\<open>- _ . ! ~ * ' ( )\<close> stay, every other byte becomes \<^verbatim>\<open>%XX\<close>.\<close>

definition unreservedChars :: string where
  "unreservedChars =
     ''ABCDEFGHIJKLMNOPQRSTUVWXYZabcdefghijklmnopqrstuvwxyz0123456789-_.!~*()'' @ [CHR 0x27]"

definition hexDigit :: "nat \<Rightarrow> char" where
  "hexDigit n = ''0123456789ABCDEF'' ! n"

definition encodeChar :: "char \<Rightarrow> string" where
  "encodeChar c =
     (if c \<in> set unreservedChars then [c]
      else [CHR ''%'', hexDigit (of_char c div 16), hexDigit (of_char c mod 16)])"

definition encodeURIComponent :: "string \<Rightarrow> string" where
  "encodeURIComponent s = concat (map encodeChar s)"

datatype contentTypeOption = ContentTypeValue string | ContentTypeFn "string \<Rightarrow> string"

datatype disposition = Inline | Attachment

fun dispositionText :: "disposition \<Rightarrow> string" where
  "dispositionText Inline = ''inline''"
| "dispositionText Attachment = ''attachment''"

record FileServingRouterOptions =
  contentType :: contentTypeOption
  contentDisposition :: "disposition option"

text \<open>What the handler puts on the response: the status, the body, and the two headers it
  sets itself (the value handed to \<^verbatim>\<open>res.contentType\<close>, and \<^verbatim>\<open>Content-Disposition\<close>).\<close>

record response =
  status :: nat
  body :: string
  contentTypeHeader :: "string option"
  contentDispositionHeader :: "string option"

definition sendStatus :: "nat \<Rightarrow> string \<Rightarrow> response" where
  "sendStatus code text =
     \<lparr>status = code, body = text, contentTypeHeader = None, contentDispositionHeader = None\<rparr>"

text \<open>
  The handler of \<^verbatim>\<open>GET /:filename\<close>. The route parameter is a string or absent (the route
  has no wildcard, so it is never an array). A content type function is taken to return a
  string, as its type says; then the \<^verbatim>\<open>try\<close> block can only fail in \<^verbatim>\<open>readFileSync\<close>,
  and that is the branch with status 500.
\<close>

definition fileHandler ::
  "string \<Rightarrow> string \<Rightarrow> contentTypeOption \<Rightarrow> disposition \<Rightarrow> filesystem \<Rightarrow> string option
     \<Rightarrow> response" where
  "fileHandler resolvedStorageDir delim ctype cdisp fs rawFilename =
     (case rawFilename of
        None \<Rightarrow> sendStatus 400 ''Bad request: filename parameter is required''
      | Some name \<Rightarrow>
          if name = [] then sendStatus 400 ''Bad request: filename parameter is required''
          else
            (let filePath = path_join resolvedStorageDir name
             in if \<not> startsWith filePath resolvedStorageDir then sendStatus 403 ''Access denied''
                else if \<not> existsSync fs filePath then sendStatus 404 ''File not found''
                else
                  (case readFileSync fs filePath of
                     Inl e \<Rightarrow> sendStatus 500 ''Internal server error''
                   | Inr data \<Rightarrow>
                       (let originalFilename = filename (parseStoredName name delim)
                        in \<lparr>status = 200, body = data,
                            contentTypeHeader =
                              Some (case ctype of
                                      ContentTypeValue v \<Rightarrow> v
                                    | ContentTypeFn f \<Rightarrow> f name),
                            contentDispositionHeader =
                              Some (dispositionText cdisp @ ''; filename='' @ [CHR 0x22]
                                      @ encodeURIComponent originalFilename @ [CHR 0x22])\<rparr>))))"

text \<open>\<^verbatim>\<open>createFileServingRouter\<close>: the defaults are applied and the store path is resolved
  once; a store path that does not resolve makes the construction itself fail.\<close>

definition createFileServingRouter ::
  "string \<Rightarrow> 's FileServingConfig \<Rightarrow> FileServingRouterOptions
     \<Rightarrow> error + (filesystem \<Rightarrow> string option \<Rightarrow> response)" where
  "createFileServingRouter cwd config options =
     (let delim = (case delimiter config of None \<Rightarrow> DEFAULT_DELIMITER | Some d \<Rightarrow> d);
          cdisp = (case contentDisposition options of None \<Rightarrow> Attachment | Some c \<Rightarrow> c)
      in case resolveResourceStorePath cwd (resourceStoreUri config) of
           Inl e \<Rightarrow> Inl e
         | Inr resolvedStorageDir \<Rightarrow>
             Inr (fileHandler resolvedStorageDir delim (contentType options) cdisp))"

section \<open>Properties of the string operations\<close>

text \<open>\<^verbatim>\<open>indexOf\<close> finds an occurrence exactly when there is one, and it finds the first.\<close>

lemma indexOf_None_iff: "indexOf s d = None \<longleftrightarrow> \<not> sublist d s"
  by (induction s) (auto simp: sublist_Cons_right)

lemma includes_str_iff: "includes_str s d \<longleftrightarrow> sublist d s"
  by (simp add: includes_str_def indexOf_None_iff)

lemma indexOf_Some_prefix:
  "indexOf s d = Some k \<Longrightarrow> k \<le> length s \<and> prefix d (drop k s)"
  by (induction s arbitrary: k) (auto split: if_splits)

lemma indexOf_Some_least:
  "indexOf s d = Some k \<Longrightarrow> j < k \<Longrightarrow> \<not> prefix d (drop j s)"
proof (induction s arbitrary: k j)
  case Nil
  then show ?case by (auto split: if_splits)
next
  case (Cons c cs)
  then show ?case by (cases j) (auto split: if_splits)
qed

lemma includes_str_empty: "includes_str s []"
  by (simp add: includes_str_iff)

section \<open>Properties of the name codec\<close>

text \<open>
  The codec inverts itself whenever the first occurrence of the delimiter in the stored
  name is the one that \<^verbatim>\<open>formatStoredName\<close> wrote. A delimiter of one character that
  is not in the identifier is such a case; it covers the default delimiter.
\<close>

lemma parse_format_at_boundary:
  "indexOf (i @ d @ f) d = Some (length i) \<Longrightarrow>
     parseStoredName (formatStoredName i f d) d = \<lparr>id' = i, filename = f\<rparr>"
  by (simp add: parseStoredName_def formatStoredName_def substring_def substringFrom_def)

lemma indexOf_single_char:
  "c \<notin> set i \<Longrightarrow> indexOf (i @ c # f) [c] = Some (length i)"
  by (induction i) auto

lemma parse_format_single_char:
  "c \<notin> set i \<Longrightarrow>
     parseStoredName (formatStoredName i f [c]) [c] = \<lparr>id' = i, filename = f\<rparr>"
  by (simp add: parseStoredName_def formatStoredName_def indexOf_single_char
        substring_def substringFrom_def)

text \<open>
  Claim C3 (round trip of the codec for every identifier that does not contain the
  delimiter). With the delimiter \<^verbatim>\<open>--\<close> the identifier \<^verbatim>\<open>abc-\<close> does not contain the
  delimiter and passes the validation of \<^verbatim>\<open>generateValidatedId\<close>, but in the stored name
  \<^verbatim>\<open>abc---x.pdf\<close> the first occurrence of the delimiter starts inside the identifier:
  parsing returns the identifier \<^verbatim>\<open>abc\<close> and the filename \<^verbatim>\<open>-x.pdf\<close>, not what was
  formatted.
\<close>

theorem parse_format_overlapping_delimiter:
  "\<not> sublist ''--'' ''abc-'' \<and>
   generateValidatedId ''--'' (\<lambda>s::unit. (''abc-'', s)) () = (Inr ''abc-'', ()) \<and>
   formatStoredName ''abc-'' ''x.pdf'' ''--'' = ''abc---x.pdf'' \<and>
   parseStoredName (formatStoredName ''abc-'' ''x.pdf'' ''--'') ''--''
     = \<lparr>id' = ''abc'', filename = ''-x.pdf''\<rparr>"
  by code_simp

text \<open>
  Claim C8 (fallback parsing): when the delimiter does not occur in the stored name,
  \<^verbatim>\<open>parseStoredName\<close> returns a value, not an error, and that value has the whole stored
  name as the identifier and as the filename.
\<close>

theorem parseStoredName_fallback:
  "\<not> sublist d s \<Longrightarrow> parseStoredName s d = \<lparr>id' = s, filename = s\<rparr>"
  using indexOf_None_iff [of s d] by (simp add: parseStoredName_def)

lemma report_no_hyphen: "\<not> sublist ''-'' ''report.pdf''"
  by code_simp

theorem parseStoredName_fallback_witness:
  "\<not> sublist ''-'' ''report.pdf'' \<and>
   parseStoredName ''report.pdf'' ''-'' = \<lparr>id' = ''report.pdf'', filename = ''report.pdf''\<rparr>"
  using parseStoredName_fallback [OF report_no_hyphen] report_no_hyphen by simp

section \<open>Properties of identifier generation\<close>

lemma loop_exhausts:
  assumes bad: "\<And>s. includes_str (fst (g s)) d"
  shows "k \<le> maxAttempts \<Longrightarrow>
         generateValidatedId_loop d g (maxAttempts - k) s
           = (Inl (Error (generationErrorMessage d)), ((\<lambda>s. snd (g s)) ^^ k) s)"
proof (induction k arbitrary: s)
  case 0
  then show ?case by (subst generateValidatedId_loop.simps) simp
next
  case (Suc k)
  have lt: "maxAttempts - Suc k < maxAttempts" using Suc.prems by simp
  have step: "maxAttempts - Suc k + 1 = maxAttempts - k" using Suc.prems by simp
  obtain x s' where gs: "g s = (x, s')" by (cases "g s")
  have "includes_str x d" using bad [of s] gs by simp
  then have "generateValidatedId_loop d g (maxAttempts - Suc k) s
               = generateValidatedId_loop d g (maxAttempts - k) s'"
    using lt gs step by (subst generateValidatedId_loop.simps) simp
  also have "\<dots> = (Inl (Error (generationErrorMessage d)), ((\<lambda>s. snd (g s)) ^^ k) s')"
    using Suc.IH Suc.prems by simp
  also have "((\<lambda>s. snd (g s)) ^^ k) s' = ((\<lambda>s. snd (g s)) ^^ Suc k) s"
    using gs by (simp add: funpow_Suc_right del: funpow.simps)
  finally show ?case .
qed

lemma generateValidatedId_exhausts:
  assumes "\<And>s. includes_str (fst (g s)) d"
  shows "generateValidatedId d g s
           = (Inl (Error (generationErrorMessage d)), ((\<lambda>s. snd (g s)) ^^ maxAttempts) s)"
  using loop_exhausts [of g d maxAttempts s, OF assms] by (simp add: generateValidatedId_def)

lemma counting_fst: "fst (counting g (n, s)) = fst (g s)"
  by (simp add: counting_def split: prod.splits)

lemma counting_funpow:
  "((\<lambda>s. snd (counting g s)) ^^ k) (n, s) = (n + k, ((\<lambda>s. snd (g s)) ^^ k) s)"
  by (induction k) (simp_all add: counting_def split: prod.splits)

lemma numberToString_maxAttempts: "numberToString maxAttempts = ''100''"
  by code_simp

lemma generationErrorMessage_text:
  "generationErrorMessage d =
     ''Failed to generate ID without delimiter '' @ [CHR 0x27] @ d @ [CHR 0x27]
       @ '' after 100 attempts. Consider using a different delimiter or custom ID generator.''"
  by (simp add: generationErrorMessage_def numberToString_maxAttempts)

text \<open>
  Claim C4 (generation ceiling): with a generator whose every value contains the
  delimiter, \<^verbatim>\<open>generateValidatedId\<close> returns (it is a total function), its result is the
  error whose message names the delimiter and the ceiling of 100, and the generator has
  been invoked exactly 100 times: the counter of the wrapped generator goes from 0 to 100
  and its state is the state after 100 invocations.
\<close>

theorem generation_ceiling:
  assumes "\<forall>s. sublist d (fst (g s))"
  shows "generateValidatedId d (counting g) (0, s)
           = (Inl (Error (generationErrorMessage d)), (100, ((\<lambda>s. snd (g s)) ^^ 100) s))
         \<and> generationErrorMessage d =
             ''Failed to generate ID without delimiter '' @ [CHR 0x27] @ d @ [CHR 0x27]
               @ '' after 100 attempts. Consider using a different delimiter or custom ID generator.''"
proof -
  have "includes_str (fst (counting g t)) d" for t
    using assms by (cases t) (simp add: counting_fst includes_str_iff)
  then have "generateValidatedId d (counting g) (0, s)
               = (Inl (Error (generationErrorMessage d)),
                  ((\<lambda>s. snd (counting g s)) ^^ maxAttempts) (0, s))"
    by (rule generateValidatedId_exhausts)
  then show ?thesis
    by (simp add: counting_funpow generationErrorMessage_text) (simp add: maxAttempts_def)
qed

theorem generation_ceiling_witness:
  "(\<forall>s::unit. sublist ''~'' (fst (''a~b'', s))) \<and>
   generateValidatedId ''~'' (counting (\<lambda>s::unit. (''a~b'', s))) (0, ())
     = (Inl (Error (''Failed to generate ID without delimiter '' @ [CHR 0x27] @ ''~'' @ [CHR 0x27]
               @ '' after 100 attempts. Consider using a different delimiter or custom ID generator.'')),
        (100, ()))"
proof -
  have h: "\<forall>s::unit. sublist ''~'' (fst ((\<lambda>s. (''a~b'', s)) s))"
    by (simp add: includes_str_iff [symmetric] includes_str_def)
  show ?thesis
    using generation_ceiling [of "''~''" "\<lambda>s::unit. (''a~b'', s)" "()", OF h] h by simp
qed

section \<open>Properties of store path resolution\<close>

lemma path_resolve_absolute:
  "isAbsolutePath cwd \<Longrightarrow> isAbsolutePath (path_resolve cwd p)"
  by (auto simp: path_resolve_def isAbsolutePath_def Let_def split: list.splits)

lemma path_resolve_absolute_form:
  "isAbsolutePath cwd \<Longrightarrow>
     path_resolve cwd p =
       ''/'' @ normalizeString (if isAbsolutePath p then p @ ''/''
                                else cwd @ ''/'' @ (if p = [] then [] else p @ ''/'')) False"
  by (auto simp: path_resolve_def isAbsolutePath_def Let_def split: list.splits)

text \<open>
  Claim C6 (store path resolver): the resolver fails exactly on the empty input and on an
  input that does not begin with \<^verbatim>\<open>file://\<close> but contains \<^verbatim>\<open>://\<close>, each with its own
  message; an input \<^verbatim>\<open>file://r\<close> resolves \<open>r\<close>; an input without \<^verbatim>\<open>://\<close> is resolved
  as it is; and every path returned is absolute. The working directory of the process is
  an absolute path.
\<close>

theorem resolveResourceStorePath_cases:
  assumes "isAbsolutePath cwd"
  shows "((\<exists>e. resolveResourceStorePath cwd u = Inl e)
            \<longleftrightarrow> u = [] \<or> (\<not> prefix ''file://'' u \<and> sublist ''://'' u))
       \<and> resolveResourceStorePath cwd [] = Inl (Error ''File serving requires a resourceStoreUri.'')
       \<and> (u \<noteq> [] \<and> \<not> prefix ''file://'' u \<and> sublist ''://'' u \<longrightarrow>
            resolveResourceStorePath cwd u =
              Inl (Error (''Unsupported resourceStoreUri scheme: '' @ u
                            @ ''. Only file:// URIs are supported.'')))
       \<and> resolveResourceStorePath cwd (''file://'' @ r) = Inr (path_resolve cwd r)
       \<and> (u \<noteq> [] \<and> \<not> sublist ''://'' u \<longrightarrow>
            resolveResourceStorePath cwd u = Inr (path_resolve cwd u))
       \<and> (\<forall>p. resolveResourceStorePath cwd u = Inr p \<longrightarrow> isAbsolutePath p)"
proof -
  have nofile: "\<not> sublist ''://'' u \<Longrightarrow> \<not> prefix ''file://'' u"
  proof
    assume a: "\<not> sublist ''://'' u" and b: "prefix ''file://'' u"
    from b obtain t where "u = ''file://'' @ t" by (auto simp: prefix_def)
    then have "u = ''file'' @ ''://'' @ t" by simp
    then have "sublist ''://'' u" unfolding sublist_def by blast
    with a show False by simp
  qed
  show ?thesis
    using assms nofile
    by (auto simp: resolveResourceStorePath_def startsWith_def FILE_URI_PREFIX_def
        includes_str_iff sliceFrom_def path_resolve_absolute)
qed

theorem resolveResourceStorePath_cases_witness:
  "isAbsolutePath ''/home/u'' \<and>
   resolveResourceStorePath ''/home/u'' ''file:///tmp/files'' = Inr ''/tmp/files'' \<and>
   resolveResourceStorePath ''/home/u'' ''files'' = Inr ''/home/u/files'' \<and>
   (\<exists>e. resolveResourceStorePath ''/home/u'' ''s3://bucket'' = Inl e)"
proof -
  have h: "isAbsolutePath ''/home/u''" by (simp add: isAbsolutePath_def)
  have a: "path_resolve ''/home/u'' ''/tmp/files'' = ''/tmp/files''" by code_simp
  have b: "path_resolve ''/home/u'' ''files'' = ''/home/u/files''" by code_simp
  have c: "''files'' \<noteq> [] \<and> \<not> sublist ''://'' ''files''" by code_simp
  have d: "\<not> prefix ''file://'' ''s3://bucket'' \<and> sublist ''://'' ''s3://bucket''" by code_simp
  show ?thesis
    using resolveResourceStorePath_cases [OF h, of "''files''" "''/tmp/files''"]
      resolveResourceStorePath_cases [OF h, of "''s3://bucket''" "''/tmp/files''"] h a b c d
    by simp
qed

section \<open>Properties of file URIs\<close>





section \<open>Properties of the retrieval endpoint\<close>

lemma withinDirectory_prefix: "withinDirectory dir p \<Longrightarrow> prefix dir p"
  by (auto simp: withinDirectory_def prefix_def split: if_splits)

lemma createFileServingRouter_handler:
  assumes "createFileServingRouter cwd config options = Inr handler"
    and "resolveResourceStorePath cwd (resourceStoreUri config) = Inr dir"
  shows "handler =
           fileHandler dir (case delimiter config of None \<Rightarrow> DEFAULT_DELIMITER | Some d \<Rightarrow> d)
             (contentType options)
             (case contentDisposition options of None \<Rightarrow> Attachment | Some c \<Rightarrow> c)"
  using assms by (auto simp: createFileServingRouter_def Let_def)

lemma fileHandler_403:
  "name \<noteq> [] \<Longrightarrow> \<not> prefix dir (path_join dir name) \<Longrightarrow>
     fileHandler dir delim ctype cdisp fs (Some name) = sendStatus 403 ''Access denied''"
  by (simp add: fileHandler_def startsWith_def Let_def)

lemma lookupPath_entry: "fs p = Some n \<Longrightarrow> lookupPath fs p = Some n"
  by (simp add: lookupPath_def)

lemma lookupPath_File: "lookupPath fs p = Some (File bytes) \<Longrightarrow> fs p = Some (File bytes)"
  by (auto simp: lookupPath_def split: option.splits if_splits node.splits)

lemma fileHandler_404:
  "name \<noteq> [] \<Longrightarrow> prefix dir (path_join dir name) \<Longrightarrow>
   lookupPath fs (path_join dir name) = None \<Longrightarrow>
     fileHandler dir delim ctype cdisp fs (Some name) = sendStatus 404 ''File not found''"
  by (simp add: fileHandler_def startsWith_def existsSync_def Let_def)

lemma fileHandler_500:
  "name \<noteq> [] \<Longrightarrow> prefix dir (path_join dir name) \<Longrightarrow>
   lookupPath fs (path_join dir name) = Some Directory \<Longrightarrow>
     fileHandler dir delim ctype cdisp fs (Some name) = sendStatus 500 ''Internal server error''"
  by (simp add: fileHandler_def startsWith_def existsSync_def readFileSync_def Let_def)

lemma fileHandler_200:
  "name \<noteq> [] \<Longrightarrow> prefix dir (path_join dir name) \<Longrightarrow>
   fs (path_join dir name) = Some (File bytes) \<Longrightarrow>
     fileHandler dir delim ctype cdisp fs (Some name) =
       \<lparr>status = 200, body = bytes,
        contentTypeHeader =
          Some (case ctype of ContentTypeValue v \<Rightarrow> v | ContentTypeFn f \<Rightarrow> f name),
        contentDispositionHeader =
          Some (dispositionText cdisp @ ''; filename='' @ [CHR 0x22]
                  @ encodeURIComponent (filename (parseStoredName name delim)) @ [CHR 0x22])\<rparr>"
  by (simp add: fileHandler_def startsWith_def existsSync_def readFileSync_def Let_def
      lookupPath_entry)

lemma fileHandler_200_only:
  assumes ok: "status (fileHandler dir delim ctype cdisp fs raw) = 200"
  shows "\<exists>name bytes. raw = Some name \<and> name \<noteq> [] \<and> prefix dir (path_join dir name)
        \<and> fs (path_join dir name) = Some (File bytes)"
proof (cases raw)
  case None
  with ok show ?thesis by (simp add: fileHandler_def sendStatus_def)
next
  case (Some name)
  have n: "name \<noteq> []"
    using ok Some by (auto simp: fileHandler_def sendStatus_def)
  have p: "prefix dir (path_join dir name)"
    using ok Some n by (auto simp: fileHandler_def sendStatus_def startsWith_def Let_def
        split: if_splits)
  obtain bytes where "lookupPath fs (path_join dir name) = Some (File bytes)"
    using ok Some n p
    by (auto simp: fileHandler_def sendStatus_def startsWith_def existsSync_def
        readFileSync_def Let_def split: if_splits option.splits node.splits)
  then have "fs (path_join dir name) = Some (File bytes)" by (rule lookupPath_File)
  with Some n p show ?thesis by blast
qed

lemma fileHandler_400:
  "raw = None \<or> raw = Some [] \<Longrightarrow>
     fileHandler dir delim ctype cdisp fs raw
       = sendStatus 400 ''Bad request: filename parameter is required''"
  by (auto simp: fileHandler_def)

text \<open>
  Claim C7 (success path of the retrieval endpoint): for a non-empty requested name whose
  joined path passes the guard of the handler and names a regular file, the response has
  status 200, the bytes of that file as its body, the content type given by the configured
  constant or by the configured function applied to the requested (stored) name, and a
  \<^verbatim>\<open>Content-Disposition\<close> made of the configured disposition (\<^verbatim>\<open>attachment\<close> when none is
  configured) and the percent-encoded filename that \<^verbatim>\<open>parseStoredName\<close> recovers.
\<close>

theorem retrieval_success:
  assumes "createFileServingRouter cwd config options = Inr handler"
    and "resolveResourceStorePath cwd (resourceStoreUri config) = Inr dir"
    and "name \<noteq> []"
    and "prefix dir (path_join dir name)"
    and "fs (path_join dir name) = Some (File bytes)"
  shows "handler fs (Some name) =
           \<lparr>status = 200, body = bytes,
            contentTypeHeader =
              Some (case contentType options of
                      ContentTypeValue v \<Rightarrow> v
                    | ContentTypeFn f \<Rightarrow> f name),
            contentDispositionHeader =
              Some (dispositionText
                      (case contentDisposition options of None \<Rightarrow> Attachment | Some c \<Rightarrow> c)
                    @ ''; filename='' @ [CHR 0x22]
                    @ encodeURIComponent
                        (filename (parseStoredName name
                           (case delimiter config of None \<Rightarrow> DEFAULT_DELIMITER | Some d \<Rightarrow> d)))
                    @ [CHR 0x22])\<rparr>"
  using assms(3-5) unfolding createFileServingRouter_handler [OF assms(1,2)]
  by (rule fileHandler_200)

lemma example_store: "resolveResourceStorePath ''/home/u'' ''file:///tmp/files'' = Inr ''/tmp/files''"
  by code_simp

lemma example_router:
  "createFileServingRouter ''/home/u''
     \<lparr>resourceStoreUri = ''file:///tmp/files'', delimiter = None, generateId = None\<rparr>
     \<lparr>contentType = ct, contentDisposition = None\<rparr>
   = Inr (fileHandler ''/tmp/files'' ''~'' ct Attachment)"
  by (simp add: createFileServingRouter_def example_store DEFAULT_DELIMITER_def)

theorem retrieval_success_witness:
  "fileHandler ''/tmp/files'' ''~'' (ContentTypeValue ''text/plain'') Attachment
     [''/tmp/files/id1~a b.txt'' \<mapsto> File ''hello''] (Some ''id1~a b.txt'')
   = \<lparr>status = 200, body = ''hello'', contentTypeHeader = Some ''text/plain'',
      contentDispositionHeader = Some (''attachment; filename='' @ [CHR 0x22] @ ''a%20b.txt'' @ [CHR 0x22])\<rparr>"
proof -
  have j: "path_join ''/tmp/files'' ''id1~a b.txt'' = ''/tmp/files/id1~a b.txt''" by code_simp
  have n: "''id1~a b.txt'' \<noteq> []" by simp
  have p: "prefix ''/tmp/files'' (path_join ''/tmp/files'' ''id1~a b.txt'')" by code_simp
  have f: "[''/tmp/files/id1~a b.txt'' \<mapsto> File ''hello'']
             (path_join ''/tmp/files'' ''id1~a b.txt'') = Some (File ''hello'')"
    by (simp add: j)
  have e: "encodeURIComponent (filename (parseStoredName ''id1~a b.txt'' DEFAULT_DELIMITER))
             = ''a%20b.txt''"
    by code_simp
  have r: "createFileServingRouter ''/home/u''
             (\<lparr>resourceStoreUri = ''file:///tmp/files'', delimiter = None,
               generateId = None\<rparr> :: unit FileServingConfig)
             \<lparr>contentType = ContentTypeValue ''text/plain'', contentDisposition = None\<rparr>
           = Inr (fileHandler ''/tmp/files'' ''~'' (ContentTypeValue ''text/plain'') Attachment)"
    by (rule example_router)
  have s: "resolveResourceStorePath ''/home/u''
             (resourceStoreUri (\<lparr>resourceStoreUri = ''file:///tmp/files'', delimiter = None,
               generateId = None\<rparr> :: unit FileServingConfig)) = Inr ''/tmp/files''"
    by (simp add: example_store)
  show ?thesis
    using retrieval_success [OF r s n p,
        where fs = "[''/tmp/files/id1~a b.txt'' \<mapsto> File ''hello'']" and bytes = "''hello''"] f
    by (simp add: e)
qed

text \<open>
  A requested name that names a directory names no file in the store: the existence check
  passes, reading fails, and the status is 500, which is neither 403 nor 404. This is so
  for the store directory itself (the name \<^verbatim>\<open>.\<close>) and for a directory inside the store.
\<close>

theorem retrieval_directory_500:
  "createFileServingRouter ''/home/u''
     (\<lparr>resourceStoreUri = ''file:///tmp/files'', delimiter = None, generateId = None\<rparr>
        :: unit FileServingConfig)
     \<lparr>contentType = ContentTypeValue ''application/pdf'', contentDisposition = None\<rparr>
   = Inr (fileHandler ''/tmp/files'' ''~'' (ContentTypeValue ''application/pdf'') Attachment)
   \<and> path_join ''/tmp/files'' ''.'' = ''/tmp/files''
   \<and> fileHandler ''/tmp/files'' ''~'' (ContentTypeValue ''application/pdf'') Attachment
       [''/tmp/files'' \<mapsto> Directory] (Some ''.'')
     = sendStatus 500 ''Internal server error''
   \<and> path_join ''/tmp/files'' ''reports'' = ''/tmp/files/reports''
   \<and> fileHandler ''/tmp/files'' ''~'' (ContentTypeValue ''application/pdf'') Attachment
       [''/tmp/files'' \<mapsto> Directory, ''/tmp/files/reports'' \<mapsto> Directory] (Some ''reports'')
     = sendStatus 500 ''Internal server error''"
proof -
  have a: "fileHandler ''/tmp/files'' ''~'' (ContentTypeValue ''application/pdf'') Attachment
          [''/tmp/files'' \<mapsto> Directory] (Some ''.'')
        = sendStatus 500 ''Internal server error''"
    by code_simp
  have b: "path_join ''/tmp/files'' ''.'' = ''/tmp/files''" by code_simp
  have c: "fileHandler ''/tmp/files'' ''~'' (ContentTypeValue ''application/pdf'') Attachment
          [''/tmp/files'' \<mapsto> Directory, ''/tmp/files/reports'' \<mapsto> Directory]
          (Some ''reports'')
        = sendStatus 500 ''Internal server error''"
    by code_simp
  have d: "path_join ''/tmp/files'' ''reports'' = ''/tmp/files/reports''" by code_simp
  show ?thesis by (intro conjI) (rule example_router a b c d)+
qed

text \<open>
  Claim C1 (containment), as far as the guard of the handler reaches. For a non-empty
  requested name, with \<open>p\<close> the normalised join of the store directory and the name:
  when \<open>p\<close> does not begin with the store directory the status is 403; when \<open>p\<close> lies
  within the store directory and names nothing the status is 404; when \<open>p\<close> lies
  within the store directory and names a directory, with or without a slash at its end,
  the status is 500; and the status is 200 only when a regular file is at \<open>p\<close>.
\<close>

theorem retrieval_containment:
  assumes "createFileServingRouter cwd config options = Inr handler"
    and "resolveResourceStorePath cwd (resourceStoreUri config) = Inr dir"
    and "name \<noteq> []"
  shows "(\<not> prefix dir (path_join dir name) \<longrightarrow> status (handler fs (Some name)) = 403)
       \<and> (withinDirectory dir (path_join dir name)
            \<and> lookupPath fs (path_join dir name) = None \<longrightarrow>
            status (handler fs (Some name)) = 404)
       \<and> (withinDirectory dir (path_join dir name)
            \<and> lookupPath fs (path_join dir name) = Some Directory \<longrightarrow>
            status (handler fs (Some name)) = 500)
       \<and> (status (handler fs (Some name)) = 200 \<longrightarrow>
            (\<exists>bytes. fs (path_join dir name) = Some (File bytes)))"
proof -
  note h = createFileServingRouter_handler [OF assms(1,2)]
  have c1: "\<not> prefix dir (path_join dir name) \<Longrightarrow> status (handler fs (Some name)) = 403"
    unfolding h using assms(3) by (simp add: fileHandler_403 sendStatus_def)
  have c2: "withinDirectory dir (path_join dir name) \<Longrightarrow>
            lookupPath fs (path_join dir name) = None \<Longrightarrow>
            status (handler fs (Some name)) = 404"
    unfolding h using assms(3)
    by (simp add: fileHandler_404 withinDirectory_prefix sendStatus_def)
  have c3: "withinDirectory dir (path_join dir name) \<Longrightarrow>
            lookupPath fs (path_join dir name) = Some Directory \<Longrightarrow>
            status (handler fs (Some name)) = 500"
    unfolding h using assms(3)
    by (simp add: fileHandler_500 withinDirectory_prefix sendStatus_def)
  have c4: "status (handler fs (Some name)) = 200 \<Longrightarrow>
            \<exists>bytes. fs (path_join dir name) = Some (File bytes)"
    unfolding h by (drule fileHandler_200_only) blast
  from c1 c2 c3 c4 show ?thesis by blast
qed

theorem retrieval_containment_witness:
  "status (fileHandler ''/tmp/files'' ''~'' (ContentTypeValue ''application/pdf'') Attachment
     [''/tmp'' \<mapsto> Directory, ''/tmp/files'' \<mapsto> Directory,
      ''/tmp/files/reports'' \<mapsto> Directory, ''/tmp/files/a~b.pdf'' \<mapsto> File ''data'']
     (Some ''../../etc/passwd'')) = 403
   \<and> status (fileHandler ''/tmp/files'' ''~'' (ContentTypeValue ''application/pdf'') Attachment
     [''/tmp'' \<mapsto> Directory, ''/tmp/files'' \<mapsto> Directory,
      ''/tmp/files/reports'' \<mapsto> Directory, ''/tmp/files/a~b.pdf'' \<mapsto> File ''data'']
     (Some ''nonexistent.pdf'')) = 404
   \<and> status (fileHandler ''/tmp/files'' ''~'' (ContentTypeValue ''application/pdf'') Attachment
     [''/tmp'' \<mapsto> Directory, ''/tmp/files'' \<mapsto> Directory,
      ''/tmp/files/reports'' \<mapsto> Directory, ''/tmp/files/a~b.pdf'' \<mapsto> File ''data'']
     (Some ''a~b.pdf/'')) = 404
   \<and> status (fileHandler ''/tmp/files'' ''~'' (ContentTypeValue ''application/pdf'') Attachment
     [''/tmp'' \<mapsto> Directory, ''/tmp/files'' \<mapsto> Directory,
      ''/tmp/files/reports'' \<mapsto> Directory, ''/tmp/files/a~b.pdf'' \<mapsto> File ''data'']
     (Some ''.'')) = 500
   \<and> status (fileHandler ''/tmp/files'' ''~'' (ContentTypeValue ''application/pdf'') Attachment
     [''/tmp'' \<mapsto> Directory, ''/tmp/files'' \<mapsto> Directory,
      ''/tmp/files/reports'' \<mapsto> Directory, ''/tmp/files/a~b.pdf'' \<mapsto> File ''data'']
     (Some ''reports/'')) = 500
   \<and> (\<exists>bytes. [''/tmp'' \<mapsto> Directory, ''/tmp/files'' \<mapsto> Directory,
         ''/tmp/files/reports'' \<mapsto> Directory, ''/tmp/files/a~b.pdf'' \<mapsto> File ''data'']
         (path_join ''/tmp/files'' ''a~b.pdf'') = Some (File bytes))"
proof -
  let ?fs = "[''/tmp'' \<mapsto> Directory, ''/tmp/files'' \<mapsto> Directory,
              ''/tmp/files/reports'' \<mapsto> Directory, ''/tmp/files/a~b.pdf'' \<mapsto> File ''data'']"
  let ?h = "fileHandler ''/tmp/files'' ''~'' (ContentTypeValue ''application/pdf'') Attachment"
  have r: "createFileServingRouter ''/home/u''
             (\<lparr>resourceStoreUri = ''file:///tmp/files'', delimiter = None,
               generateId = None\<rparr> :: unit FileServingConfig)
             \<lparr>contentType = ContentTypeValue ''application/pdf'', contentDisposition = None\<rparr>
           = Inr ?h"
    by (rule example_router)
  have s: "resolveResourceStorePath ''/home/u''
             (resourceStoreUri (\<lparr>resourceStoreUri = ''file:///tmp/files'', delimiter = None,
               generateId = None\<rparr> :: unit FileServingConfig)) = Inr ''/tmp/files''"
    by (simp add: example_store)
  have n1: "''../../etc/passwd'' \<noteq> []" and n2: "''nonexistent.pdf'' \<noteq> []"
    and n3: "''.'' \<noteq> []" and n4: "''a~b.pdf'' \<noteq> []"
    and n5: "''reports/'' \<noteq> []" and n6: "''a~b.pdf/'' \<noteq> []"
    by simp_all
  have p1: "\<not> prefix ''/tmp/files'' (path_join ''/tmp/files'' ''../../etc/passwd'')"
    by code_simp
  have p2: "withinDirectory ''/tmp/files'' (path_join ''/tmp/files'' ''nonexistent.pdf'')
            \<and> lookupPath ?fs (path_join ''/tmp/files'' ''nonexistent.pdf'') = None"
    by code_simp
  have p3: "withinDirectory ''/tmp/files'' (path_join ''/tmp/files'' ''.'')
            \<and> lookupPath ?fs (path_join ''/tmp/files'' ''.'') = Some Directory"
    by code_simp
  have p4: "status (?h ?fs (Some ''a~b.pdf'')) = 200"
    by code_simp
  have p5: "withinDirectory ''/tmp/files'' (path_join ''/tmp/files'' ''reports/'')
            \<and> lookupPath ?fs (path_join ''/tmp/files'' ''reports/'') = Some Directory"
    by code_simp
  have p6: "withinDirectory ''/tmp/files'' (path_join ''/tmp/files'' ''a~b.pdf/'')
            \<and> lookupPath ?fs (path_join ''/tmp/files'' ''a~b.pdf/'') = None"
    by code_simp
  have c1: "status (?h ?fs (Some ''../../etc/passwd'')) = 403"
    using retrieval_containment [OF r s n1, where fs = "?fs"] p1 by blast
  have c2: "status (?h ?fs (Some ''nonexistent.pdf'')) = 404"
    using retrieval_containment [OF r s n2, where fs = "?fs"] p2 by blast
  have c3: "status (?h ?fs (Some ''.'')) = 500"
    using retrieval_containment [OF r s n3, where fs = "?fs"] p3 by blast
  have c4: "\<exists>bytes. ?fs (path_join ''/tmp/files'' ''a~b.pdf'') = Some (File bytes)"
    using retrieval_containment [OF r s n4, where fs = "?fs"] p4 by blast
  have c5: "status (?h ?fs (Some ''reports/'')) = 500"
    using retrieval_containment [OF r s n5, where fs = "?fs"] p5 by blast
  have c6: "status (?h ?fs (Some ''a~b.pdf/'')) = 404"
    using retrieval_containment [OF r s n6, where fs = "?fs"] p6 by blast
  show ?thesis by (intro conjI) (rule c1 c2 c3 c4 c5 c6)+
qed

text \<open>
  Claim C2 (403 takes precedence over 404 for every path that escapes the store
  directory). The guard compares strings: the path \<^verbatim>\<open>/tmp/files-secret/x\<close> is outside the
  store directory \<^verbatim>\<open>/tmp/files\<close> and still begins with it. For the requested name
  \<^verbatim>\<open>../files-secret/x\<close> the status is 404 when nothing is at that path, not 403, and it
  is 200 with the bytes of the outside file when there is one.
\<close>

theorem retrieval_prefix_sibling:
  "createFileServingRouter ''/home/u''
     (\<lparr>resourceStoreUri = ''file:///tmp/files'', delimiter = None, generateId = None\<rparr>
        :: unit FileServingConfig)
     \<lparr>contentType = ContentTypeValue ''application/pdf'', contentDisposition = None\<rparr>
   = Inr (fileHandler ''/tmp/files'' ''~'' (ContentTypeValue ''application/pdf'') Attachment)
   \<and> path_join ''/tmp/files'' ''../files-secret/x'' = ''/tmp/files-secret/x''
   \<and> \<not> withinDirectory ''/tmp/files'' ''/tmp/files-secret/x''
   \<and> status (fileHandler ''/tmp/files'' ''~'' (ContentTypeValue ''application/pdf'') Attachment
       [''/tmp/files'' \<mapsto> Directory] (Some ''../files-secret/x'')) = 404
   \<and> status (fileHandler ''/tmp/files'' ''~'' (ContentTypeValue ''application/pdf'') Attachment
       [''/tmp/files'' \<mapsto> Directory, ''/tmp/files-secret'' \<mapsto> Directory,
        ''/tmp/files-secret/x'' \<mapsto> File ''secret''] (Some ''../files-secret/x'')) = 200
   \<and> body (fileHandler ''/tmp/files'' ''~'' (ContentTypeValue ''application/pdf'') Attachment
       [''/tmp/files'' \<mapsto> Directory, ''/tmp/files-secret'' \<mapsto> Directory,
        ''/tmp/files-secret/x'' \<mapsto> File ''secret''] (Some ''../files-secret/x'')) = ''secret''"
proof -
  have a: "path_join ''/tmp/files'' ''../files-secret/x'' = ''/tmp/files-secret/x''"
    by code_simp
  have b: "\<not> withinDirectory ''/tmp/files'' ''/tmp/files-secret/x''"
    by code_simp
  have c: "status (fileHandler ''/tmp/files'' ''~'' (ContentTypeValue ''application/pdf'') Attachment
       [''/tmp/files'' \<mapsto> Directory] (Some ''../files-secret/x'')) = 404"
    by code_simp
  have d: "status (fileHandler ''/tmp/files'' ''~'' (ContentTypeValue ''application/pdf'') Attachment
       [''/tmp/files'' \<mapsto> Directory, ''/tmp/files-secret'' \<mapsto> Directory,
        ''/tmp/files-secret/x'' \<mapsto> File ''secret''] (Some ''../files-secret/x'')) = 200"
    by code_simp
  have e: "body (fileHandler ''/tmp/files'' ''~'' (ContentTypeValue ''application/pdf'') Attachment
       [''/tmp/files'' \<mapsto> Directory, ''/tmp/files-secret'' \<mapsto> Directory,
        ''/tmp/files-secret/x'' \<mapsto> File ''secret''] (Some ''../files-secret/x'')) = ''secret''"
    by code_simp
  show ?thesis by (intro conjI) (rule example_router a b c d e)+
qed

section \<open>Properties of the path module\<close>

text \<open>
  A resolved path is a slash followed by segments joined by slashes, none of them empty and
  none with a slash inside; so, unless it is the root, it is the last of the directories
  that \<^verbatim>\<open>mkdir\<close> makes for it.
\<close>

lemma splitOn_not_Nil: "splitOn sep s \<noteq> []"
  by (induction s) (auto split: list.splits)

lemma splitOn_no_sep: "seg \<in> set (splitOn sep s) \<Longrightarrow> sep \<notin> set seg"
  by (induction s arbitrary: seg) (auto split: list.splits if_splits)

lemma splitOn_plain: "sep \<notin> set a \<Longrightarrow> splitOn sep a = [a]"
  by (induction a) auto

lemma splitOn_append_sep:
  "sep \<notin> set a \<Longrightarrow> splitOn sep (a @ sep # b) = a # splitOn sep b"
  by (induction a) auto

lemma splitOn_joinSegs:
  "segs \<noteq> [] \<Longrightarrow> \<forall>seg \<in> set segs. CHR ''/'' \<notin> set seg \<Longrightarrow>
     splitOn CHR ''/'' (joinSegs segs) = segs"
proof (induction segs rule: joinSegs.induct)
  case 1
  then show ?case by simp
next
  case (2 s)
  then show ?case by (simp add: splitOn_plain)
next
  case (3 s t ts)
  then show ?case by (simp add: splitOn_append_sep)
qed

lemma normSegs_segments:
  "seg \<in> set (normSegs allowAbove stack segs) \<Longrightarrow>
     seg \<in> set stack \<or> seg = ''..'' \<or> (seg \<in> set segs \<and> seg \<noteq> [])"
proof (induction allowAbove stack segs rule: normSegs.induct)
  case (1 allowAbove stack)
  then show ?case by simp
next
  case (2 allowAbove stack s ss)
  show ?case
  proof (cases "s = [] \<or> s = ''.''")
    case True
    with "2.prems" "2.IH"(1) show ?thesis by auto
  next
    case notdot: False
    show ?thesis
    proof (cases "s = ''..''")
      case False
      with notdot "2.prems" "2.IH"(5) show ?thesis by auto
    next
      case dd: True
      show ?thesis
      proof (cases stack)
        case Nil
        with notdot dd "2.prems" "2.IH"(2) show ?thesis by (auto split: if_splits)
      next
        case (Cons t ts)
        show ?thesis
        proof (cases "t = ''..''")
          case True
          with notdot dd Cons "2.prems" "2.IH"(3) show ?thesis by (auto split: if_splits)
        next
          case False
          with notdot dd Cons "2.prems" "2.IH"(4) show ?thesis by auto
        qed
      qed
    qed
  qed
qed


lemma normalizeString_segments:
  assumes "seg \<in> set (normSegs allowAbove [] (splitOn CHR ''/'' path))"
  shows "seg \<noteq> [] \<and> CHR ''/'' \<notin> set seg"
proof -
  from normSegs_segments [OF assms]
  have "seg = ''..'' \<or> (seg \<in> set (splitOn CHR ''/'' path) \<and> seg \<noteq> [])" by simp
  then show ?thesis using splitOn_no_sep [of seg "CHR ''/''" path] by auto
qed

lemma pathSegments_absolute:
  assumes "\<forall>seg \<in> set segs. seg \<noteq> [] \<and> CHR ''/'' \<notin> set seg"
  shows "pathSegments (''/'' @ joinSegs segs) = segs"
proof (cases "segs = []")
  case True
  then show ?thesis by (simp add: pathSegments_def)
next
  case False
  with assms have "splitOn CHR ''/'' (joinSegs segs) = segs"
    by (simp add: splitOn_joinSegs)
  moreover have "filter (\<lambda>s. s \<noteq> []) segs = segs" using assms by (simp add: filter_id_conv)
  ultimately show ?thesis by (simp add: pathSegments_def)
qed

lemma ancestors_last:
  assumes "\<forall>seg \<in> set segs. seg \<noteq> [] \<and> CHR ''/'' \<notin> set seg" and "segs \<noteq> []"
  shows "''/'' @ joinSegs segs \<in> set (ancestors (''/'' @ joinSegs segs))"
proof -
  have "''/'' @ joinSegs segs = (\<lambda>k. ''/'' @ joinSegs (take k segs)) (length segs)"
    by simp
  moreover have "length segs \<in> set [1 ..< Suc (length segs)]"
    using assms(2) by (cases segs) auto
  ultimately have "''/'' @ joinSegs segs
      \<in> (\<lambda>k. ''/'' @ joinSegs (take k segs)) ` set [1 ..< Suc (length segs)]"
    by (rule image_eqI)
  then show ?thesis
    unfolding ancestors_def pathSegments_absolute [OF assms(1)] set_map .
qed

lemma path_resolve_segments:
  assumes "isAbsolutePath cwd"
  obtains segs where "path_resolve cwd p = ''/'' @ joinSegs segs"
    and "\<forall>seg \<in> set segs. seg \<noteq> [] \<and> CHR ''/'' \<notin> set seg"
proof -
  let ?x = "if isAbsolutePath p then p @ ''/''
            else cwd @ ''/'' @ (if p = [] then [] else p @ ''/'')"
  let ?segs = "normSegs False [] (splitOn CHR ''/'' ?x)"
  have "path_resolve cwd p = ''/'' @ joinSegs ?segs"
    using path_resolve_absolute_form [OF assms, of p] by (simp only: normalizeString_def)
  moreover have "\<forall>seg \<in> set ?segs. seg \<noteq> [] \<and> CHR ''/'' \<notin> set seg"
    using normalizeString_segments by blast
  ultimately show ?thesis by (rule that)
qed

lemma path_resolve_in_ancestors:
  assumes "isAbsolutePath cwd" and "path_resolve cwd p \<noteq> ''/''"
  shows "path_resolve cwd p \<in> set (ancestors (path_resolve cwd p))"
proof -
  obtain segs where eq: "path_resolve cwd p = ''/'' @ joinSegs segs"
    and ok: "\<forall>seg \<in> set segs. seg \<noteq> [] \<and> CHR ''/'' \<notin> set seg"
    using path_resolve_segments [OF assms(1)] by blast
  have "segs \<noteq> []" using assms(2) eq by auto
  with ancestors_last [OF ok] show ?thesis by (simp add: eq)
qed

lemma resolveResourceStorePath_in_ancestors:
  assumes "isAbsolutePath cwd" and "resolveResourceStorePath cwd u = Inr dir" and "dir \<noteq> ''/''"
  shows "dir \<in> set (ancestors dir)"
  using assms path_resolve_in_ancestors [OF assms(1)]
  by (auto simp: resolveResourceStorePath_def split: if_splits)

section \<open>Properties of reservation\<close>

lemma mkdirAll_frame:
  "mkdirAll fs ps = (r, fs') \<Longrightarrow> fs' p = fs p \<or> (fs' p = Some Directory \<and> p \<in> set ps)"
proof (induction ps arbitrary: fs)
  case Nil
  then show ?case by simp
next
  case (Cons q qs)
  show ?case
  proof (cases "\<exists>b. fs q = Some (File b)")
    case True
    with Cons.prems show ?thesis by auto
  next
    case False
    then have "mkdirAll (fs(q \<mapsto> Directory)) qs = (r, fs')"
      using Cons.prems by (auto split: option.splits node.splits)
    from Cons.IH [OF this] show ?thesis by (auto split: if_splits)
  qed
qed

lemma mkdirAll_no_new_file:
  "mkdirAll fs ps = (r, fs') \<Longrightarrow> fs' p = Some (File b) \<Longrightarrow> fs p = Some (File b)"
  using mkdirAll_frame [of fs ps r fs' p] by auto

lemma mkdirAll_keeps_directory:
  "mkdirAll fs ps = (r, fs') \<Longrightarrow> fs p = Some Directory \<Longrightarrow> fs' p = Some Directory"
  using mkdirAll_frame [of fs ps r fs' p] by auto

lemma mkdirAll_made:
  "mkdirAll fs ps = (None, fs') \<Longrightarrow> p \<in> set ps \<Longrightarrow> fs' p = Some Directory"
proof (induction ps arbitrary: fs)
  case Nil
  then show ?case by simp
next
  case (Cons q qs)
  have nf: "\<not> (\<exists>b. fs q = Some (File b))"
    using Cons.prems(1) by (auto split: option.splits node.splits)
  then have step: "mkdirAll (fs(q \<mapsto> Directory)) qs = (None, fs')"
    using Cons.prems(1) by (auto split: option.splits node.splits)
  show ?case
  proof (cases "p \<in> set qs")
    case True
    with Cons.IH [OF step] show ?thesis by simp
  next
    case False
    then have "p = q" using Cons.prems(2) by simp
    then show ?thesis using mkdirAll_keeps_directory [OF step, of p] by simp
  qed
qed

lemma mkdirAll_all_directories:
  "\<forall>p \<in> set ps. fs p = Some Directory \<Longrightarrow> mkdirAll fs ps = (None, fs)"
proof (induction ps)
  case Nil
  then show ?case by simp
next
  case (Cons q qs)
  then have "fs(q \<mapsto> Directory) = fs" by (auto simp: fun_upd_idem_iff)
  with Cons show ?case by simp
qed

lemma mkdirAll_idempotent:
  "mkdirAll fs ps = (None, fs') \<Longrightarrow> mkdirAll fs' ps = (None, fs')"
  by (rule mkdirAll_all_directories) (simp add: mkdirAll_made)

lemma generateValidatedId_loop_valid:
  "generateValidatedId_loop d g a s = (Inr x, s') \<Longrightarrow> \<not> includes_str x d"
proof (induction d g a s rule: generateValidatedId_loop.induct)
  case (1 d g a s)
  show ?case
  proof (cases "a < maxAttempts")
    case False
    with "1.prems" show ?thesis by (simp add: generateValidatedId_loop.simps)
  next
    case True
    obtain y t where gs: "g s = (y, t)" by (cases "g s")
    show ?thesis
    proof (cases "includes_str y d")
      case False
      with True gs "1.prems" show ?thesis
        by (simp add: generateValidatedId_loop.simps [of d g a s])
    next
      case inc: True
      with True gs "1.prems" have "generateValidatedId_loop d g (a + 1) t = (Inr x, s')"
        by (simp add: generateValidatedId_loop.simps [of d g a s])
      with "1.IH" [OF True gs [symmetric]] inc show ?thesis by simp
    qed
  qed
qed

lemma generateValidatedId_valid:
  "generateValidatedId d g s = (Inr x, s') \<Longrightarrow> \<not> sublist d x"
  using generateValidatedId_loop_valid [of d g 0 s x s']
  by (simp add: generateValidatedId_def includes_str_iff)

lemma mkdir_recursive_frame:
  "mkdir_recursive fs dir = (r, fs') \<Longrightarrow>
     fs' p = fs p \<or> (fs' p = Some Directory \<and> p \<in> set (ancestors dir))"
  unfolding mkdir_recursive_def by (rule mkdirAll_frame)

lemma mkdir_recursive_idempotent:
  "mkdir_recursive fs dir = (None, fs') \<Longrightarrow> mkdir_recursive fs' dir = (None, fs')"
  unfolding mkdir_recursive_def by (rule mkdirAll_idempotent)

lemma reserveFile_Inr:
  assumes "reserveFile cwd randomUUID originalFilename config (fs, s) = (Inr r, fs', s')"
  obtains dir ident where
    "resolveResourceStorePath cwd (resourceStoreUri config) = Inr dir"
    "mkdir_recursive fs dir = (None, fs')"
    "generateValidatedId (case delimiter config of None \<Rightarrow> DEFAULT_DELIMITER | Some d \<Rightarrow> d)
       (case generateId config of None \<Rightarrow> randomUUID | Some g \<Rightarrow> g) s = (Inr ident, s')"
    "r = \<lparr>reservationId = ident,
          storedName = formatStoredName ident originalFilename
             (case delimiter config of None \<Rightarrow> DEFAULT_DELIMITER | Some d \<Rightarrow> d),
          fullPath = path_join dir (formatStoredName ident originalFilename
             (case delimiter config of None \<Rightarrow> DEFAULT_DELIMITER | Some d \<Rightarrow> d))\<rparr>"
  using assms
  by (auto simp: reserveFile_def Let_def split: sum.splits prod.splits option.splits)

text \<open>
  Claim C9 (reservation): a call of \<^verbatim>\<open>reserveFile\<close> that succeeds returns an identifier
  without the delimiter, the stored name \<^verbatim>\<open>id + delimiter + originalFilename\<close> and the full
  path that joins the resolved store directory with the stored name. The file system it
  leaves is the one \<^verbatim>\<open>mkdir\<close> of the store directory produces: the store directory is a
  directory in it, making the directory again changes nothing, every path that changed is
  now a directory on the way to the store directory, and every regular file afterwards was
  there before with the same bytes. No file is created, at the full path or elsewhere.
\<close>

theorem reserveFile_success:
  assumes "reserveFile cwd randomUUID originalFilename config (fs, s) = (Inr r, fs', s')"
  shows "\<exists>dir. resolveResourceStorePath cwd (resourceStoreUri config) = Inr dir
     \<and> \<not> sublist (case delimiter config of None \<Rightarrow> DEFAULT_DELIMITER | Some d \<Rightarrow> d)
           (reservationId r)
     \<and> storedName r = reservationId r
           @ (case delimiter config of None \<Rightarrow> DEFAULT_DELIMITER | Some d \<Rightarrow> d)
           @ originalFilename
     \<and> fullPath r = path_join dir (storedName r)
     \<and> mkdir_recursive fs dir = (None, fs')
     \<and> mkdir_recursive fs' dir = (None, fs')
     \<and> (isAbsolutePath cwd \<and> dir \<noteq> ''/'' \<longrightarrow> fs' dir = Some Directory)
     \<and> (\<forall>p. fs' p = fs p \<or> (fs' p = Some Directory \<and> p \<in> set (ancestors dir)))
     \<and> (\<forall>p bytes. fs' p = Some (File bytes) \<longrightarrow> fs p = Some (File bytes))"
proof -
  from assms obtain dir ident where
    d: "resolveResourceStorePath cwd (resourceStoreUri config) = Inr dir"
    and m: "mkdir_recursive fs dir = (None, fs')"
    and g: "generateValidatedId (case delimiter config of None \<Rightarrow> DEFAULT_DELIMITER | Some d \<Rightarrow> d)
       (case generateId config of None \<Rightarrow> randomUUID | Some g \<Rightarrow> g) s = (Inr ident, s')"
    and r: "r = \<lparr>reservationId = ident,
          storedName = formatStoredName ident originalFilename
             (case delimiter config of None \<Rightarrow> DEFAULT_DELIMITER | Some d \<Rightarrow> d),
          fullPath = path_join dir (formatStoredName ident originalFilename
             (case delimiter config of None \<Rightarrow> DEFAULT_DELIMITER | Some d \<Rightarrow> d))\<rparr>"
    by (rule reserveFile_Inr)
  have v: "\<not> sublist (case delimiter config of None \<Rightarrow> DEFAULT_DELIMITER | Some d \<Rightarrow> d)
             (reservationId r)"
    using generateValidatedId_valid [OF g] r by simp
  have n: "storedName r = reservationId r
             @ (case delimiter config of None \<Rightarrow> DEFAULT_DELIMITER | Some d \<Rightarrow> d)
             @ originalFilename"
    using r by (simp add: formatStoredName_def)
  have f: "fullPath r = path_join dir (storedName r)" using r by simp
  have fr: "\<forall>p. fs' p = fs p \<or> (fs' p = Some Directory \<and> p \<in> set (ancestors dir))"
    using mkdir_recursive_frame [OF m] by blast
  then have nf: "\<forall>p bytes. fs' p = Some (File bytes) \<longrightarrow> fs p = Some (File bytes)"
    by (metis node.distinct(1) option.inject)
  have mk: "fs' dir = Some Directory" if "isAbsolutePath cwd" and "dir \<noteq> ''/''"
    using mkdirAll_made [OF m [unfolded mkdir_recursive_def]]
      resolveResourceStorePath_in_ancestors [OF that(1) d that(2)] by simp
  from d v n f m mkdir_recursive_idempotent [OF m] mk fr nf show ?thesis by blast
qed

lemma generateValidatedId_first:
  "\<not> sublist d (fst (g s)) \<Longrightarrow> generateValidatedId d g s = (Inr (fst (g s)), snd (g s))"
  by (cases "g s")
    (simp add: generateValidatedId_def generateValidatedId_loop.simps [of d g 0 s]
      maxAttempts_def includes_str_iff)

lemma reserveFile_returns:
  assumes "resolveResourceStorePath cwd (resourceStoreUri config) = Inr dir"
    and "mkdir_recursive fs dir = (None, fs')"
    and "generateValidatedId (case delimiter config of None \<Rightarrow> DEFAULT_DELIMITER | Some d \<Rightarrow> d)
           (case generateId config of None \<Rightarrow> randomUUID | Some g \<Rightarrow> g) s = (Inr ident, s')"
  shows "reserveFile cwd randomUUID originalFilename config (fs, s)
           = (Inr \<lparr>reservationId = ident,
                   storedName = formatStoredName ident originalFilename
                     (case delimiter config of None \<Rightarrow> DEFAULT_DELIMITER | Some d \<Rightarrow> d),
                   fullPath = path_join dir (formatStoredName ident originalFilename
                     (case delimiter config of None \<Rightarrow> DEFAULT_DELIMITER | Some d \<Rightarrow> d))\<rparr>,
              fs', s')"
  using assms by (simp add: reserveFile_def Let_def)

lemma reserveFile_unresolved:
  "resolveResourceStorePath cwd (resourceStoreUri config) = Inl e \<Longrightarrow>
     reserveFile cwd randomUUID originalFilename config (fs, s) = (Inl e, fs, s)"
  by (simp add: reserveFile_def Let_def)

lemma reserveFile_mkdir_fails:
  "resolveResourceStorePath cwd (resourceStoreUri config) = Inr dir \<Longrightarrow>
   mkdir_recursive fs dir = (Some e, fs') \<Longrightarrow>
     reserveFile cwd randomUUID originalFilename config (fs, s) = (Inl e, fs', s)"
  by (simp add: reserveFile_def Let_def)

lemma example_reservation:
  "reserveFile ''/home/u'' (\<lambda>s::unit. (''uuid'', s)) ''a b.txt''
     \<lparr>resourceStoreUri = ''file:///tmp/files'', delimiter = None,
      generateId = Some (\<lambda>s. (''id1'', s))\<rparr>
     ([''/tmp'' \<mapsto> Directory, ''/tmp/old.txt'' \<mapsto> File ''x''], ())
   = (Inr \<lparr>reservationId = ''id1'', storedName = ''id1~a b.txt'',
            fullPath = ''/tmp/files/id1~a b.txt''\<rparr>,
      [''/tmp'' \<mapsto> Directory, ''/tmp/old.txt'' \<mapsto> File ''x'',
       ''/tmp/files'' \<mapsto> Directory], ())"
proof -
  let ?cfg = "\<lparr>resourceStoreUri = ''file:///tmp/files'', delimiter = None,
               generateId = Some (\<lambda>s::unit. (''id1'', s))\<rparr>"
  have a: "ancestors ''/tmp/files'' = [''/tmp'', ''/tmp/files'']" by code_simp
  have u: "[''/tmp'' \<mapsto> Directory, ''/tmp/old.txt'' \<mapsto> File ''x''](''/tmp'' \<mapsto> Directory)
             = [''/tmp'' \<mapsto> Directory, ''/tmp/old.txt'' \<mapsto> File ''x'']"
    by (rule ext) simp
  have d: "resolveResourceStorePath ''/home/u'' (resourceStoreUri ?cfg) = Inr ''/tmp/files''"
    by (simp add: example_store)
  have m: "mkdir_recursive [''/tmp'' \<mapsto> Directory, ''/tmp/old.txt'' \<mapsto> File ''x''] ''/tmp/files''
             = (None, [''/tmp'' \<mapsto> Directory, ''/tmp/old.txt'' \<mapsto> File ''x'',
                       ''/tmp/files'' \<mapsto> Directory])"
    by (simp add: mkdir_recursive_def a u)
  have g: "generateValidatedId
             (case delimiter ?cfg of None \<Rightarrow> DEFAULT_DELIMITER | Some d \<Rightarrow> d)
             (case generateId ?cfg of None \<Rightarrow> (\<lambda>s::unit. (''uuid'', s)) | Some g \<Rightarrow> g) ()
           = (Inr ''id1'', ())"
    by code_simp
  have j: "path_join ''/tmp/files'' ''id1~a b.txt'' = ''/tmp/files/id1~a b.txt''"
    by code_simp
  show ?thesis
    using reserveFile_returns [OF d m g, of "''a b.txt''"]
    by (simp add: formatStoredName_def DEFAULT_DELIMITER_def j)
qed

theorem reserveFile_success_witness:
  "reserveFile ''/home/u'' (\<lambda>s::unit. (''uuid'', s)) ''a b.txt''
     \<lparr>resourceStoreUri = ''file:///tmp/files'', delimiter = None,
      generateId = Some (\<lambda>s. (''id1'', s))\<rparr>
     ([''/tmp'' \<mapsto> Directory, ''/tmp/old.txt'' \<mapsto> File ''x''], ())
   = (Inr \<lparr>reservationId = ''id1'', storedName = ''id1~a b.txt'',
            fullPath = ''/tmp/files/id1~a b.txt''\<rparr>,
      [''/tmp'' \<mapsto> Directory, ''/tmp/old.txt'' \<mapsto> File ''x'',
       ''/tmp/files'' \<mapsto> Directory], ())
   \<and> \<not> sublist ''~'' ''id1''
   \<and> ''id1~a b.txt'' = ''id1'' @ ''~'' @ ''a b.txt''
   \<and> ''/tmp/files/id1~a b.txt'' = path_join ''/tmp/files'' ''id1~a b.txt''
   \<and> [''/tmp'' \<mapsto> Directory, ''/tmp/old.txt'' \<mapsto> File ''x'',
       ''/tmp/files'' \<mapsto> Directory] ''/tmp/files'' = Some Directory
   \<and> [''/tmp'' \<mapsto> Directory, ''/tmp/old.txt'' \<mapsto> File ''x''] ''/tmp/old.txt''
       = Some (File ''x'')
   \<and> [''/tmp'' \<mapsto> Directory, ''/tmp/old.txt'' \<mapsto> File ''x'',
       ''/tmp/files'' \<mapsto> Directory] ''/tmp/files/id1~a b.txt'' = None"
proof -
  let ?fs = "[''/tmp'' \<mapsto> Directory, ''/tmp/old.txt'' \<mapsto> File ''x'']"
  let ?fs' = "[''/tmp'' \<mapsto> Directory, ''/tmp/old.txt'' \<mapsto> File ''x'',
               ''/tmp/files'' \<mapsto> Directory]"
  let ?r = "\<lparr>reservationId = ''id1'', storedName = ''id1~a b.txt'',
             fullPath = ''/tmp/files/id1~a b.txt''\<rparr>"
  let ?cfg = "\<lparr>resourceStoreUri = ''file:///tmp/files'', delimiter = None,
               generateId = Some (\<lambda>s::unit. (''id1'', s))\<rparr>"
  from reserveFile_success [OF example_reservation]
  obtain dir where d: "resolveResourceStorePath ''/home/u'' (resourceStoreUri ?cfg) = Inr dir"
    and v: "\<not> sublist (case delimiter ?cfg of None \<Rightarrow> DEFAULT_DELIMITER | Some d \<Rightarrow> d)
              (reservationId ?r)"
    and n: "storedName ?r = reservationId ?r
              @ (case delimiter ?cfg of None \<Rightarrow> DEFAULT_DELIMITER | Some d \<Rightarrow> d)
              @ ''a b.txt''"
    and f: "fullPath ?r = path_join dir (storedName ?r)"
    and mk: "isAbsolutePath ''/home/u'' \<and> dir \<noteq> ''/'' \<longrightarrow> ?fs' dir = Some Directory"
    and nf: "\<forall>p bytes. ?fs' p = Some (File bytes) \<longrightarrow> ?fs p = Some (File bytes)"
    by blast
  have dir: "dir = ''/tmp/files''" using d by (simp add: example_store)
  have ab: "isAbsolutePath ''/home/u'' \<and> ''/tmp/files'' \<noteq> ''/''"
    by (simp add: isAbsolutePath_def)
  have c1: "\<not> sublist ''~'' ''id1''" using v by (simp add: DEFAULT_DELIMITER_def)
  have c2: "''id1~a b.txt'' = ''id1'' @ ''~'' @ ''a b.txt''"
    using n by (simp add: DEFAULT_DELIMITER_def)
  have c3: "''/tmp/files/id1~a b.txt'' = path_join ''/tmp/files'' ''id1~a b.txt''"
    using f unfolding dir by simp
  have c4: "?fs' ''/tmp/files'' = Some Directory" using mk ab unfolding dir by blast
  have "?fs' ''/tmp/old.txt'' = Some (File ''x'')" by simp
  with nf have c5: "?fs ''/tmp/old.txt'' = Some (File ''x'')" by blast
  have c6: "?fs' ''/tmp/files/id1~a b.txt'' = None" by simp
  show ?thesis by (intro conjI) (rule example_reservation c1 c2 c3 c4 c5 c6)+
qed

text \<open>
  Claim C10 (empty delimiter), as the code has it. With the empty delimiter neither
  \<^verbatim>\<open>reserveFile\<close> nor \<^verbatim>\<open>writeFile\<close> ever succeeds, whatever the generator; and when the
  store location resolves and the directory can be made, the failure is the generation
  error, raised after the generator has been invoked 100 times.
\<close>

theorem reserveFile_empty_delimiter:
  assumes "delimiter config = Some []"
  shows "(\<exists>e. fst (reserveFile cwd randomUUID originalFilename config (fs, s)) = Inl e)
       \<and> (\<exists>e. fst (writeFile cwd randomUUID buffer originalFilename config (fs, s)) = Inl e)
       \<and> (resolveResourceStorePath cwd (resourceStoreUri config) = Inr dir
            \<and> mkdir_recursive fs dir = (None, fs') \<longrightarrow>
          reserveFile cwd randomUUID originalFilename config (fs, s)
            = (Inl (Error (generationErrorMessage [])), fs',
               ((\<lambda>s. snd ((case generateId config of None \<Rightarrow> randomUUID | Some g \<Rightarrow> g) s))
                  ^^ 100) s)
          \<and> writeFile cwd randomUUID buffer originalFilename config (fs, s)
            = (Inl (Error (generationErrorMessage [])), fs',
               ((\<lambda>s. snd ((case generateId config of None \<Rightarrow> randomUUID | Some g \<Rightarrow> g) s))
                  ^^ 100) s))"
proof -
  let ?g = "case generateId config of None \<Rightarrow> randomUUID | Some g \<Rightarrow> g"
  have gen: "generateValidatedId [] ?g s
               = (Inl (Error (generationErrorMessage [])), ((\<lambda>s. snd (?g s)) ^^ 100) s)"
    using generateValidatedId_exhausts [of ?g "[]" s]
    by (simp add: includes_str_empty maxAttempts_def)
  have r1: "\<exists>e. fst (reserveFile cwd randomUUID originalFilename config (fs, s)) = Inl e"
    using assms gen
    by (auto simp: reserveFile_def Let_def split: sum.splits prod.splits option.splits)
  then have w1: "\<exists>e. fst (writeFile cwd randomUUID buffer originalFilename config (fs, s)) = Inl e"
    by (auto simp: writeFile_def split: sum.splits prod.splits)
  have r2: "reserveFile cwd randomUUID originalFilename config (fs, s)
            = (Inl (Error (generationErrorMessage [])), fs', ((\<lambda>s. snd (?g s)) ^^ 100) s)"
    if "resolveResourceStorePath cwd (resourceStoreUri config) = Inr dir"
      and "mkdir_recursive fs dir = (None, fs')"
    using assms gen that by (simp add: reserveFile_def)
  then have w2: "writeFile cwd randomUUID buffer originalFilename config (fs, s)
            = (Inl (Error (generationErrorMessage [])), fs', ((\<lambda>s. snd (?g s)) ^^ 100) s)"
    if "resolveResourceStorePath cwd (resourceStoreUri config) = Inr dir"
      and "mkdir_recursive fs dir = (None, fs')"
    using that by (simp add: writeFile_def)
  from r1 w1 r2 w2 show ?thesis by blast
qed

text \<open>
  With the empty delimiter and a store location of an unsupported scheme, \<^verbatim>\<open>reserveFile\<close>
  fails in the store path resolver: the error is not the generation error and the
  generator has not been invoked.
\<close>

theorem reserveFile_empty_delimiter_unsupported_scheme:
  "reserveFile ''/home/u'' (counting (\<lambda>s::unit. (''uuid'', s))) ''a.txt''
     \<lparr>resourceStoreUri = ''s3://bucket/files'', delimiter = Some [], generateId = None\<rparr>
     (Map.empty, (0, ()))
   = (Inl (Error ''Unsupported resourceStoreUri scheme: s3://bucket/files. Only file:// URIs are supported.''),
      Map.empty, (0, ()))
   \<and> Error ''Unsupported resourceStoreUri scheme: s3://bucket/files. Only file:// URIs are supported.''
       \<noteq> Error (generationErrorMessage [])"
proof -
  have a: "resolveResourceStorePath ''/home/u'' ''s3://bucket/files''
             = Inl (Error ''Unsupported resourceStoreUri scheme: s3://bucket/files. Only file:// URIs are supported.'')"
    by code_simp
  have b: "Error ''Unsupported resourceStoreUri scheme: s3://bucket/files. Only file:// URIs are supported.''
       \<noteq> Error (generationErrorMessage [])"
    by code_simp
  show ?thesis using b by (simp add: reserveFile_def a)
qed

theorem reserveFile_empty_delimiter_witness:
  "reserveFile ''/home/u'' (\<lambda>s::unit. (''uuid'', s)) ''a.txt''
     \<lparr>resourceStoreUri = ''file:///tmp/files'', delimiter = Some [], generateId = None\<rparr>
     (Map.empty, ())
   = (Inl (Error (''Failed to generate ID without delimiter '' @ [CHR 0x27] @ [CHR 0x27]
         @ '' after 100 attempts. Consider using a different delimiter or custom ID generator.'')),
      [''/tmp'' \<mapsto> Directory, ''/tmp/files'' \<mapsto> Directory], ())
   \<and> writeFile ''/home/u'' (\<lambda>s::unit. (''uuid'', s)) ''hello'' ''a.txt''
     \<lparr>resourceStoreUri = ''file:///tmp/files'', delimiter = Some [], generateId = None\<rparr>
     (Map.empty, ())
   = (Inl (Error (''Failed to generate ID without delimiter '' @ [CHR 0x27] @ [CHR 0x27]
         @ '' after 100 attempts. Consider using a different delimiter or custom ID generator.'')),
      [''/tmp'' \<mapsto> Directory, ''/tmp/files'' \<mapsto> Directory], ())"
proof -
  let ?cfg = "\<lparr>resourceStoreUri = ''file:///tmp/files'', delimiter = Some [],
               generateId = None\<rparr> :: unit FileServingConfig"
  have d: "delimiter ?cfg = Some []" by simp
  have a: "ancestors ''/tmp/files'' = [''/tmp'', ''/tmp/files'']" by code_simp
  have m: "resolveResourceStorePath ''/home/u'' (resourceStoreUri ?cfg) = Inr ''/tmp/files''
           \<and> mkdir_recursive Map.empty ''/tmp/files''
               = (None, [''/tmp'' \<mapsto> Directory, ''/tmp/files'' \<mapsto> Directory])"
    by (simp add: example_store mkdir_recursive_def a)
  show ?thesis
    using reserveFile_empty_delimiter [OF d, where cwd = "''/home/u''" and fs = Map.empty
        and dir = "''/tmp/files''"
        and fs' = "[''/tmp'' \<mapsto> Directory, ''/tmp/files'' \<mapsto> Directory]"
        and randomUUID = "\<lambda>s::unit. (''uuid'', s)" and s = "()"
        and originalFilename = "''a.txt''" and buffer = "''hello''"] m
    by (simp add: generationErrorMessage_text)
qed

end
